theory Spec2Isabelle
  imports Complex_Main
begin

section \<open>Plain JavaScript objects\<close>

text \<open>
  \<^verbatim>\<open>main.js\<close> keeps its layers in plain objects used as dictionaries: \<^verbatim>\<open>leafletGeom\<close>
  (line 118), \<^verbatim>\<open>layersObject\<close> (line 159) and the pre-parsed \<^verbatim>\<open>marker\<close> object (line 24).
  An object is modelled by the list of its own enumerable string-keyed properties, in the
  order in which \<^verbatim>\<open>Object.entries\<close> lists them (ECMAScript's OrdinaryOwnPropertyKeys):
  array indices first, in ascending numeric order, then every other key in the order of its
  creation. The keys of an object are distinct. An assignment \<^verbatim>\<open>ob[k] = v\<close> to an existing
  key changes the value and keeps the position. An assignment to the key \<^verbatim>\<open>__proto__\<close>, when
  the object has no own property of that name, runs the setter inherited from
  \<^verbatim>\<open>Object.prototype\<close>: it creates no own property. It can change the prototype of the
  object, which is not recorded here, as nothing in \<^verbatim>\<open>main.js\<close> reads the prototype of
  \<^verbatim>\<open>leafletGeom\<close> or \<^verbatim>\<open>layersObject\<close>.
\<close>

type_synonym 'v obj = "(string \<times> 'v) list"

definition is_digit :: "char \<Rightarrow> bool" where
  "is_digit c = (48 \<le> (of_char c :: nat) \<and> (of_char c :: nat) \<le> 57)"

definition digit_value :: "char \<Rightarrow> int" where
  "digit_value c = of_char c - 48"

definition index_value :: "string \<Rightarrow> int" where
  "index_value s = foldl (\<lambda>n c. 10 * n + digit_value c) 0 s"

text \<open>An array index is a canonical decimal numeral below \<open>2^32 - 1\<close>.\<close>

definition is_array_index :: "string \<Rightarrow> bool" where
  "is_array_index s =
     (s \<noteq> [] \<and> list_all is_digit s \<and> (if hd s = CHR ''0'' then s = ''0'' else True)
      \<and> index_value s < 2 ^ 32 - 1)"

definition precedes :: "string \<Rightarrow> string \<times> 'v \<Rightarrow> bool" where
  "precedes k p = (is_array_index (fst p) \<and> index_value (fst p) < index_value k)"

abbreviation proto :: string where
  "proto \<equiv> ''__proto__''"

text \<open>The assignment \<^verbatim>\<open>ob[k] = v\<close>.\<close>

definition obj_set :: "string \<Rightarrow> 'v \<Rightarrow> 'v obj \<Rightarrow> 'v obj" where
  "obj_set k v ob =
     (if k \<in> set (map fst ob) then map (\<lambda>p. if fst p = k then (k, v) else p) ob
      else if k = proto then ob
      else if is_array_index k
        then takeWhile (precedes k) ob @ (k, v) # dropWhile (precedes k) ob
      else ob @ [(k, v)])"

section \<open>Data of the viewer\<close>

type_synonym latlng = "real \<times> real"

type_synonym style = "(string \<times> string) list"

datatype json = JNull | JBool bool | JNum real | JStr string
  | JArr "json list" | JObj "(string \<times> json) list"

text \<open>
  The geometry of a feature, by what Leaflet's \<^verbatim>\<open>L.geoJSON\<close> does with it: a geometry that is
  \<^verbatim>\<open>null\<close> or missing, for which the feature is skipped; a geometry that is turned into a
  layer; a geometry at which Leaflet throws (an unknown type, coordinates that are no
  positions). \<^verbatim>\<open>main.js\<close> itself never reads the geometry.
\<close>

datatype geometry = NoGeometry | Drawable | Malformed

text \<open>
  A GeoJSON feature. Its \<^verbatim>\<open>properties\<close> member is an object or \<^verbatim>\<open>null\<close>
  (\<open>None\<close> stands for \<^verbatim>\<open>null\<close> and for a missing member); an object is given by its members
  in the order of the response text, of which \<^verbatim>\<open>JSON.parse\<close> keeps the last one of every
  name.
\<close>

record feature =
  properties :: "(string \<times> json) list option"
  geometry :: geometry

text \<open>
  What a property read \<^verbatim>\<open>ob[k]\<close> on a parsed object gives, when it is not \<^verbatim>\<open>undefined\<close>: the
  value of the own property \<open>k\<close>, or else the member of \<^verbatim>\<open>Object.prototype\<close> of that name
  (a function, or the prototype itself for \<^verbatim>\<open>__proto__\<close>), which is never \<^verbatim>\<open>null\<close>.
\<close>

datatype content = Own json | Inherited string

text \<open>
  A Leaflet layer: the result of \<^verbatim>\<open>L.geoJSON\<close>, with its style and with the popup content
  bound to each feature it holds, or the result of \<^verbatim>\<open>L.layerGroup\<close> on markers with their
  popups.
\<close>

datatype layer =
  GeoJSONLayer style "(feature \<times> content) list"
| LayerGroup "(latlng \<times> string) list"

text \<open>The descriptor objects of line 20 to 23: \<^verbatim>\<open>{name, attr, src, style}\<close>.\<close>

record descriptor =
  name :: string
  attr :: string
  src :: string
  style :: style

datatype val = VString string | VStyle style | VLayer layer

text \<open>
  The elements of the arrays \<^verbatim>\<open>objects\<close>, \<^verbatim>\<open>preparsedFeatures\<close> and \<^verbatim>\<open>features\<close>: a
  descriptor, or a plain object of named values.
\<close>

datatype jsobj = Descriptor descriptor | Plain "val obj"

fun Object_entries :: "jsobj \<Rightarrow> val obj" where
  "Object_entries (Plain ob) = ob"
| "Object_entries (Descriptor d) =
     [(''name'', VString (name d)), (''attr'', VString (attr d)),
      (''src'', VString (src d)), (''style'', VStyle (style d))]"

section \<open>\<^verbatim>\<open>leaflet.setFeatureLayers\<close> (line 158 to 171)\<close>

definition setFeatureLayers :: "jsobj list \<Rightarrow> val obj" where
  "setFeatureLayers layerGroups =
     foldl (\<lambda>layersObject ob.
             foldl (\<lambda>layersObject (key, value). obj_set key value layersObject)
               layersObject (Object_entries ob))
       [] layerGroups"

text \<open>Every entry handed to \<open>setFeatureLayers\<close> is still found under its name in the result.\<close>

definition retains_all :: "jsobj list \<Rightarrow> bool" where
  "retains_all layerGroups =
     list_all (\<lambda>(key, value). map_of (setFeatureLayers layerGroups) key = Some value)
       (concat (map Object_entries layerGroups))"

section \<open>\<^verbatim>\<open>leaflet.setGeoJson\<close> (line 181 to 189)\<close>

text \<open>
  What the handler of a load event can throw: \<^verbatim>\<open>JSON.parse\<close> rejects the response text,
  \<^verbatim>\<open>L.geoJSON\<close> throws at the parsed value, or a property is read from \<^verbatim>\<open>null\<close> or
  \<^verbatim>\<open>undefined\<close>. \<open>NotADescriptor\<close> marks a step taken at an array element that is not a
  descriptor: the array is a descriptor list on entry (line 80 to 81), and the lemma
  \<open>reachable_shape\<close> below shows that no run of \<open>setAllControls\<close> takes such a step.
\<close>

datatype error = SyntaxError | GeoJSONError | TypeError | NotADescriptor

text \<open>
  A parsed response, as \<^verbatim>\<open>L.geoJSON\<close> sees it: a value it rejects as a whole, or the
  features that its \<^verbatim>\<open>addData\<close> meets, in order.
\<close>

datatype geojson = Invalid | Collection "feature list"

text \<open>The names of the members of \<^verbatim>\<open>Object.prototype\<close>, which every parsed object inherits.\<close>

definition object_prototype :: "string list" where
  "object_prototype =
     [''constructor'', ''hasOwnProperty'', ''isPrototypeOf'', ''propertyIsEnumerable'',
      ''toLocaleString'', ''toString'', ''valueOf'', ''__proto__'', ''__defineGetter__'',
      ''__defineSetter__'', ''__lookupGetter__'', ''__lookupSetter__'']"

text \<open>The read \<^verbatim>\<open>ob[k]\<close> on a parsed object; \<open>None\<close> is \<^verbatim>\<open>undefined\<close>.\<close>

definition get_property :: "(string \<times> json) list \<Rightarrow> string \<Rightarrow> content option" where
  "get_property ob k =
     (case map_of (rev ob) k of
        Some v \<Rightarrow> Some (Own v)
      | None \<Rightarrow> if k \<in> set object_prototype then Some (Inherited k) else None)"

text \<open>
  Line 185: the content handed to \<^verbatim>\<open>layer.bindPopup\<close>. The read of a property of \<^verbatim>\<open>null\<close> or
  \<^verbatim>\<open>undefined\<close> throws, and \<^verbatim>\<open>== null\<close> holds of \<^verbatim>\<open>undefined\<close> and \<^verbatim>\<open>null\<close> only.
\<close>

definition onEachFeature :: "string \<Rightarrow> feature \<Rightarrow> error + content" where
  "onEachFeature labelAttr f =
     (case properties f of
        None \<Rightarrow> Inl TypeError
      | Some props \<Rightarrow>
          (case get_property props labelAttr of
             None \<Rightarrow> Inr (Own (JStr ''Unnamed''))
           | Some (Own JNull) \<Rightarrow> Inr (Own (JStr ''Unnamed''))
           | Some v \<Rightarrow> Inr v))"

text \<open>
  \<^verbatim>\<open>L.geoJSON(json, {style, onEachFeature})\<close> of the Leaflet library. Its \<^verbatim>\<open>addData\<close> goes
  through the features in order: it skips a feature without geometry, throws at a geometry
  it cannot turn into a layer, and otherwise builds the feature's layer and calls the
  callback on it; an exception of the callback leaves \<^verbatim>\<open>L.geoJSON\<close>.
\<close>

fun addData :: "(feature \<Rightarrow> error + content) \<Rightarrow> feature list \<Rightarrow> error + (feature \<times> content) list" where
  "addData cb [] = Inr []"
| "addData cb (f # fs) =
     (case geometry f of
        NoGeometry \<Rightarrow> addData cb fs
      | Malformed \<Rightarrow> Inl GeoJSONError
      | Drawable \<Rightarrow>
          (case cb f of
             Inl e \<Rightarrow> Inl e
           | Inr c \<Rightarrow> (case addData cb fs of Inl e \<Rightarrow> Inl e | Inr ps \<Rightarrow> Inr ((f, c) # ps))))"

fun L_geoJSON :: "geojson \<Rightarrow> style \<Rightarrow> (feature \<Rightarrow> error + content) \<Rightarrow> error + layer" where
  "L_geoJSON Invalid st cb = Inl GeoJSONError"
| "L_geoJSON (Collection fs) st cb =
     (case addData cb fs of Inl e \<Rightarrow> Inl e | Inr ps \<Rightarrow> Inr (GeoJSONLayer st ps))"

definition setGeoJson :: "geojson \<Rightarrow> string \<Rightarrow> style \<Rightarrow> error + layer" where
  "setGeoJson json labelAttr st = L_geoJSON json st (onEachFeature labelAttr)"

section \<open>\<^verbatim>\<open>leaflet.setMarkers\<close> (line 215 to 226)\<close>

definition setMarkers :: "latlng list \<Rightarrow> layer" where
  "setMarkers latLongPairs = LayerGroup (map (\<lambda>p. (p, ''An enemy lives here.'')) latLongPairs)"

section \<open>\<^verbatim>\<open>leaflet.setAllControls\<close> (line 87 to 130)\<close>

type_synonym tiles = "(string \<times> string) list"

text \<open>
  A call \<^verbatim>\<open>L.control.layers(tiles, featurelayers).addTo(map)\<close>, with the two mappings handed
  to it. What Leaflet does with them is not modelled.
\<close>

record control =
  basemaps :: tiles
  overlays :: "val obj"

text \<open>
  The state the sequencer works on: the array \<^verbatim>\<open>objects\<close>; the one request object
  \<^verbatim>\<open>xhttp\<close>, which is idle or has a request in flight, to a URL and with the handler
  that captured index \<open>i\<close>; the controls attached to the map. Three logs record what the
  sequencer did: the URLs requested, the URLs of requests that \<^verbatim>\<open>open\<close> cut off because it
  was called on a request in flight, and the exceptions that left a handler uncaught.
\<close>

record state =
  objects :: "jsobj list"
  xhttp :: "(string \<times> nat) option"
  controls :: "control list"
  sent :: "string list"
  aborted :: "string list"
  uncaught :: "error list"

text \<open>
  The synchronous body of \<^verbatim>\<open>recursivexhttp(i, req, objects)\<close> (line 95 to 127). It returns
  \<^verbatim>\<open>features\<close> in the first branch and \<^verbatim>\<open>undefined\<close> (\<open>None\<close>) in the second, where it
  only starts a request and installs the handler.
\<close>

definition recursivexhttp ::
  "jsobj list \<Rightarrow> tiles \<Rightarrow> nat \<Rightarrow> state \<Rightarrow> error + state \<times> jsobj list option" where
  "recursivexhttp preparsedFeatures tls i s =
     (if i = length (objects s) then
        let features = preparsedFeatures @ objects s;
            featurelayers = setFeatureLayers features
        in Inr (s\<lparr>controls := controls s @ [\<lparr>basemaps = tls, overlays = featurelayers\<rparr>]\<rparr>,
                Some features)
      else if length (objects s) < i then Inl TypeError
      else
        (case objects s ! i of
           Plain ob \<Rightarrow> Inl NotADescriptor
         | Descriptor d \<Rightarrow>
             Inr (s\<lparr>xhttp := Some (src d, i),
                     sent := sent s @ [src d],
                     aborted := aborted s @ (case xhttp s of None \<Rightarrow> [] | Some (u, j) \<Rightarrow> [u])\<rparr>,
                  None)))"

text \<open>\<^verbatim>\<open>JSON.parse(req.response)\<close>: \<open>None\<close> is a response text that is not JSON.\<close>

definition JSON_parse :: "geojson option \<Rightarrow> error + geojson" where
  "JSON_parse response = (case response of None \<Rightarrow> Inl SyntaxError | Some json \<Rightarrow> Inr json)"

text \<open>
  The handler \<^verbatim>\<open>req.onload\<close> installed with index \<open>i\<close> (line 116 to 125). An exception
  comes with the state in which it was thrown. What \<^verbatim>\<open>recursivexhttp(i + 1, ...)\<close> returns
  goes back to the event dispatcher and is dropped.
\<close>

definition onload ::
  "jsobj list \<Rightarrow> tiles \<Rightarrow> nat \<Rightarrow> geojson option \<Rightarrow> state \<Rightarrow> error \<times> state + state" where
  "onload preparsedFeatures tls i response s =
     (case JSON_parse response of
        Inl e \<Rightarrow> Inl (e, s)
      | Inr json \<Rightarrow>
          if length (objects s) \<le> i then Inl (TypeError, s)
          else
            (case objects s ! i of
               Plain ob \<Rightarrow> Inl (NotADescriptor, s)
             | Descriptor d \<Rightarrow>
                 (case setGeoJson json (attr d) (style d) of
                    Inl e \<Rightarrow> Inl (e, s)
                  | Inr l \<Rightarrow>
                      let leafletGeom = obj_set (name d) (VLayer l) [];
                          s' = s\<lparr>objects := (objects s)[i := Plain leafletGeom]\<rparr>
                      in (case recursivexhttp preparsedFeatures tls (i + 1) s' of
                            Inl e \<Rightarrow> Inl (e, s')
                          | Inr (s'', r) \<Rightarrow> Inr s''))))"

text \<open>
  What the network answers to the request in flight: the request ends without a load event
  (a transport failure), or the load event fires with a response text.
\<close>

datatype reply = NoLoad | Load "geojson option"

text \<open>
  One turn of the event loop. Without a request in flight no event arrives. A request
  that ends without a load event runs no handler, as the sequencer installs none for it. An
  exception of the load handler is caught nowhere in \<^verbatim>\<open>main.js\<close>: it leaves the handler
  and ends the turn.
\<close>

definition deliver :: "jsobj list \<Rightarrow> tiles \<Rightarrow> reply \<Rightarrow> state \<Rightarrow> state" where
  "deliver preparsedFeatures tls r s =
     (case xhttp s of
        None \<Rightarrow> s
      | Some (u, i) \<Rightarrow>
          (case r of
             NoLoad \<Rightarrow> s\<lparr>xhttp := None\<rparr>
           | Load response \<Rightarrow>
               (case onload preparsedFeatures tls i response (s\<lparr>xhttp := None\<rparr>) of
                  Inl (e, s') \<Rightarrow> s'\<lparr>uncaught := uncaught s' @ [e]\<rparr>
                | Inr s' \<Rightarrow> s')))"

definition run :: "jsobj list \<Rightarrow> tiles \<Rightarrow> reply list \<Rightarrow> state \<Rightarrow> state" where
  "run preparsedFeatures tls rs s = foldl (\<lambda>s r. deliver preparsedFeatures tls r s) s rs"

definition setAllControls ::
  "jsobj list \<Rightarrow> jsobj list \<Rightarrow> tiles \<Rightarrow> error + state \<times> jsobj list option" where
  "setAllControls objs preparsedFeatures tls =
     recursivexhttp preparsedFeatures tls 0
       \<lparr>objects = objs, xhttp = None, controls = [], sent = [], aborted = [], uncaught = []\<rparr>"

text \<open>
  A session: the call of \<open>setAllControls\<close> on a descriptor list (line 31), then the replies
  of the network, in the order of their arrival.
\<close>

definition session :: "descriptor list \<Rightarrow> jsobj list \<Rightarrow> tiles \<Rightarrow> reply list \<Rightarrow> error + state" where
  "session descs preparsedFeatures tls rs =
     (case setAllControls (map Descriptor descs) preparsedFeatures tls of
        Inl e \<Rightarrow> Inl e
      | Inr (s, r) \<Rightarrow> Inr (run preparsedFeatures tls rs s))"

text \<open>
  The realized entry of a descriptor: the object \<^verbatim>\<open>leafletGeom\<close> of line 118 to 120, with
  a layer which \<open>setGeoJson\<close> builds with the descriptor's label attribute and style. It is
  the one-key object that maps the descriptor's name to the layer, but for the name
  \<^verbatim>\<open>__proto__\<close>, where it has no own property.
\<close>

fun parsed_for :: "descriptor \<Rightarrow> layer \<Rightarrow> bool" where
  "parsed_for d (GeoJSONLayer st ps) =
     (setGeoJson (Collection (map fst ps)) (attr d) (style d) = Inr (GeoJSONLayer st ps))"
| "parsed_for d (LayerGroup ms) = False"

fun entry_for :: "descriptor \<Rightarrow> jsobj \<Rightarrow> bool" where
  "entry_for d (Plain []) = (name d = proto)"
| "entry_for d (Plain [(k, VLayer l)]) = (k = name d \<and> k \<noteq> proto \<and> parsed_for d l)"
| "entry_for d ob = False"

text \<open>
  The outcome of one retrieval, for the descriptor that asked for it: the layer that the
  handler stores, or the exceptions that leave the handler (none when no load event fires).
\<close>

definition retrieval :: "descriptor \<Rightarrow> reply \<Rightarrow> error list + layer" where
  "retrieval d r =
     (case r of
        NoLoad \<Rightarrow> Inl []
      | Load response \<Rightarrow>
          (case JSON_parse response of
             Inl e \<Rightarrow> Inl [e]
           | Inr json \<Rightarrow>
               (case setGeoJson json (attr d) (style d) of Inl e \<Rightarrow> Inl [e] | Inr l \<Rightarrow> Inr l)))"

text \<open>
  The shape of every state of a session: the first \<open>k\<close> elements of the array are realized
  entries, the others are the descriptors still to be fetched; before the end one request
  has been issued per realized entry and one more; at the end the control is on the map.
\<close>

definition shape :: "descriptor list \<Rightarrow> jsobj list \<Rightarrow> tiles \<Rightarrow> nat \<Rightarrow> state \<Rightarrow> bool" where
  "shape descs preparsedFeatures tls k s =
     (k \<le> length descs \<and> length (objects s) = length descs
      \<and> (\<forall>j<k. entry_for (descs ! j) (objects s ! j))
      \<and> (\<forall>j. k \<le> j \<longrightarrow> j < length descs \<longrightarrow> objects s ! j = Descriptor (descs ! j))
      \<and> aborted s = [] \<and> NotADescriptor \<notin> set (uncaught s)
      \<and> (if k = length descs
          then xhttp s = None \<and> sent s = map src descs
            \<and> controls s =
                [\<lparr>basemaps = tls, overlays = setFeatureLayers (preparsedFeatures @ objects s)\<rparr>]
          else (xhttp s = None \<or> xhttp s = Some (src (descs ! k), k))
            \<and> sent s = map src (take (Suc k) descs) \<and> controls s = []))"

section \<open>The click handler (line 44 to 54)\<close>

text \<open>
  A marker is an object of its own: \<open>mid\<close> is its identity. The shell keeps \<^verbatim>\<open>m.userInput\<close>
  (\<open>None\<close> is \<^verbatim>\<open>undefined\<close>) and the markers that are on the map; \<open>fresh\<close> is the identity
  of the next object created. The texts written to the page are not modelled.
\<close>

record marker =
  mid :: nat
  position :: latlng
  popup :: string

record shell =
  userInput :: "marker option"
  on_map :: "marker list"
  fresh :: nat

definition removeLayer :: "marker \<Rightarrow> marker list \<Rightarrow> marker list" where
  "removeLayer mk ls = filter (\<lambda>x. mid x \<noteq> mid mk) ls"

definition addTo :: "marker \<Rightarrow> marker list \<Rightarrow> marker list" where
  "addTo mk ls = (if mid mk \<in> set (map mid ls) then ls else ls @ [mk])"

definition click :: "latlng \<Rightarrow> shell \<Rightarrow> shell" where
  "click e s =
     (let cleared = (case userInput s of None \<Rightarrow> on_map s | Some old \<Rightarrow> removeLayer old (on_map s));
          mk = \<lparr>mid = fresh s, position = e, popup = ''Possible Enemy Location''\<rparr>
      in \<lparr>userInput = Some mk, on_map = addTo mk cleared, fresh = Suc (fresh s)\<rparr>)"

definition loaded :: shell where
  "loaded = \<lparr>userInput = None, on_map = [], fresh = 0\<rparr>"

definition clicks :: "latlng list \<Rightarrow> shell" where
  "clicks es = foldl (\<lambda>s e. click e s) loaded es"

section \<open>The configuration of \<^verbatim>\<open>window.onload\<close> (line 13 to 31)\<close>

definition pointLongLat :: latlng where
  "pointLongLat = (53.533727, -113.506616)"

definition geoJSON :: "descriptor list" where
  "geoJSON =
     [\<lparr>name = ''Edmonton Parks'', attr = ''offname'', src = ''json/EdmontonParks.geojson'',
        style = [(''color'', ''green'')]\<rparr>,
      \<lparr>name = ''Edmonton Roads'', attr = ''name_ab'', src = ''json/EdmontonRoads.geojson'',
        style = [(''color'', ''purple'')]\<rparr>]"

definition marker :: jsobj where
  "marker = Plain [(''Enemies'', VLayer (setMarkers [pointLongLat]))]"

definition basemapTiles :: tiles where
  "basemapTiles =
     [(''Stadia_AlidadeSmooth'', ''https://tiles.stadiamaps.com/tiles/alidade_smooth/{z}/{x}/{y}{r}.png''),
      (''osm'', ''https://{s}.tile.openstreetmap.org/{z}/{x}/{y}.png'')]"

text \<open>Two small responses, on which the sessions of the examples below run.\<close>

definition parks_response :: geojson where
  "parks_response =
     Collection
       [\<lparr>properties = Some [(''offname'', JStr ''Hawrelak Park'')], geometry = Drawable\<rparr>,
        \<lparr>properties = Some [(''offname'', JNull)], geometry = Drawable\<rparr>,
        \<lparr>properties = Some [(''id'', JNum 7)], geometry = Drawable\<rparr>,
        \<lparr>properties = None, geometry = NoGeometry\<rparr>]"

definition roads_response :: geojson where
  "roads_response =
     Collection [\<lparr>properties = Some [(''name_ab'', JStr ''Whyte Ave'')], geometry = Drawable\<rparr>]"

section \<open>The popup text in the words of the specification\<close>

text \<open>
  The value of \<^verbatim>\<open>properties[labelAttribute]\<close> if the property is present and not null, the
  placeholder otherwise, where a property is present when the feature's properties object
  has a member of that name.
\<close>

definition spec_popup_text :: "string \<Rightarrow> (string \<times> json) list \<Rightarrow> json" where
  "spec_popup_text labelAttribute props =
     (case map_of (rev props) labelAttribute of
        None \<Rightarrow> JStr ''Unnamed''
      | Some v \<Rightarrow> if v = JNull then JStr ''Unnamed'' else v)"

section \<open>Properties of property assignment\<close>

lemma replace_keys: "map fst (map (\<lambda>p. if fst p = k then (k, v) else p) ob) = map fst ob"
  by (induction ob) auto

lemma map_of_replace_other:
  "k' \<noteq> k \<Longrightarrow> map_of (map (\<lambda>p. if fst p = k then (k, v) else p) ob) k' = map_of ob k'"
  by (induction ob) auto

lemma map_of_replace_same:
  "k \<in> fst ` set ob \<Longrightarrow> map_of (map (\<lambda>p. if fst p = k then (k, v) else p) ob) k = Some v"
  by (induction ob) auto

lemma obj_set_present:
  "k \<in> fst ` set ob \<Longrightarrow> obj_set k v ob = map (\<lambda>p. if fst p = k then (k, v) else p) ob"
  by (simp add: obj_set_def)

lemma obj_set_proto: "proto \<notin> fst ` set ob \<Longrightarrow> obj_set proto v ob = ob"
  by (simp add: obj_set_def)

lemma obj_set_absent:
  assumes "k \<notin> fst ` set ob" and "k \<noteq> proto"
  obtains t d where "ob = t @ d" and "obj_set k v ob = t @ (k, v) # d"
proof (cases "is_array_index k")
  case True
  have "ob = takeWhile (precedes k) ob @ dropWhile (precedes k) ob"
    by simp
  moreover have "obj_set k v ob = takeWhile (precedes k) ob @ (k, v) # dropWhile (precedes k) ob"
    using assms True by (simp add: obj_set_def)
  ultimately show ?thesis
    using that by blast
next
  case False
  have "ob = ob @ []"
    by simp
  moreover have "obj_set k v ob = ob @ (k, v) # []"
    using assms False by (simp add: obj_set_def)
  ultimately show ?thesis
    using that by blast
qed

lemma obj_set_keys:
  "set (map fst (obj_set k v ob))
     = (if k = proto \<and> k \<notin> fst ` set ob then set (map fst ob) else insert k (set (map fst ob)))"
proof (cases "k \<in> fst ` set ob")
  case True
  then have "map fst (obj_set k v ob) = map fst ob"
    using replace_keys [of k v ob] by (simp only: obj_set_present)
  with True show ?thesis
    by (auto simp: insert_absorb)
next
  case False
  show ?thesis
  proof (cases "k = proto")
    case True
    with False show ?thesis
      by (simp add: obj_set_proto)
  next
    case other: False
    with False obtain t d where "ob = t @ d" "obj_set k v ob = t @ (k, v) # d"
      by (rule obj_set_absent)
    with other show ?thesis
      by auto
  qed
qed

lemma obj_set_distinct:
  assumes "distinct (map fst ob)"
  shows "distinct (map fst (obj_set k v ob))"
proof (cases "k \<in> fst ` set ob")
  case True
  then show ?thesis
    using assms replace_keys [of k v ob] by (simp only: obj_set_present)
next
  case False
  show ?thesis
  proof (cases "k = proto")
    case True
    with False assms show ?thesis
      by (simp add: obj_set_proto)
  next
    case other: False
    with False obtain t d where "ob = t @ d" "obj_set k v ob = t @ (k, v) # d"
      by (rule obj_set_absent)
    with False assms show ?thesis
      by auto
  qed
qed

lemma map_of_obj_set:
  "map_of (obj_set k v ob)
     = (if k = proto \<and> k \<notin> fst ` set ob then map_of ob else (map_of ob)(k \<mapsto> v))"
proof (cases "k \<in> fst ` set ob")
  case True
  have "map_of (obj_set k v ob) k' = ((map_of ob)(k \<mapsto> v)) k'" for k'
    using True by (simp add: obj_set_present map_of_replace_other map_of_replace_same)
  with True show ?thesis
    by auto
next
  case False
  show ?thesis
  proof (cases "k = proto")
    case True
    with False show ?thesis
      by (simp add: obj_set_proto)
  next
    case other: False
    with False obtain t d where td: "ob = t @ d" "obj_set k v ob = t @ (k, v) # d"
      by (rule obj_set_absent)
    with False have "map_of t k = None"
      by (simp add: map_of_eq_None_iff image_Un)
    then have "map_of (t @ (k, v) # d) = (map_of (t @ d))(k \<mapsto> v)"
      by (auto simp: map_add_def fun_eq_iff split: option.splits)
    then have "map_of (obj_set k v ob) = (map_of ob)(k \<mapsto> v)"
      unfolding td(2) by (simp only: td(1))
    with other show ?thesis
      by simp
  qed
qed

lemma obj_set_fresh:
  "k \<notin> set (map fst ob) \<Longrightarrow> \<not> is_array_index k \<Longrightarrow> k \<noteq> proto \<Longrightarrow>
   obj_set k v ob = ob @ [(k, v)]"
  by (simp add: obj_set_def)

lemma obj_set_empty: "obj_set k v [] = (if k = proto then [] else [(k, v)])"
  by (simp add: obj_set_def)

section \<open>The mapping assembled by \<open>setFeatureLayers\<close>\<close>

text \<open>The two nested loops amount to one run of assignments over all entries, in order.\<close>

lemma foldl_entries_concat:
  "foldl (\<lambda>acc ob. foldl f acc (g ob)) acc xs = foldl f acc (concat (map g xs))"
  by (induction xs arbitrary: acc) simp_all

lemma setFeatureLayers_assignments:
  "setFeatureLayers layerGroups =
     foldl (\<lambda>layersObject (key, value). obj_set key value layersObject) []
       (concat (map Object_entries layerGroups))"
  unfolding setFeatureLayers_def by (rule foldl_entries_concat)

lemma assignments_distinct:
  "distinct (map fst m) \<Longrightarrow>
   distinct (map fst (foldl (\<lambda>layersObject (key, value). obj_set key value layersObject) m es))"
  by (induction es arbitrary: m) (auto simp: obj_set_distinct)

text \<open>\<^verbatim>\<open>layersObject\<close> starts empty, so it never gets an own property \<^verbatim>\<open>__proto__\<close>.\<close>

lemma assignments_map_of:
  "proto \<notin> fst ` set m \<Longrightarrow>
   proto \<notin> fst ` set (foldl (\<lambda>layersObject (key, value). obj_set key value layersObject) m es)
   \<and> map_of (foldl (\<lambda>layersObject (key, value). obj_set key value layersObject) m es)
     = map_of m ++ map_of (rev (filter (\<lambda>p. fst p \<noteq> proto) es))"
proof (induction es arbitrary: m)
  case Nil
  then show ?case by simp
next
  case (Cons p es)
  obtain k v where p: "p = (k, v)"
    by (cases p)
  show ?case
  proof (cases "k = proto")
    case True
    with Cons.prems have "obj_set k v m = m"
      by (simp add: obj_set_proto)
    with Cons.IH [OF Cons.prems] True show ?thesis
      by (simp add: p)
  next
    case False
    then have "fst ` set (obj_set k v m) = insert k (fst ` set m)"
      using obj_set_keys [of k v m] by simp
    with Cons.prems False have fresh: "proto \<notin> fst ` set (obj_set k v m)"
      by simp
    have "map_of (obj_set k v m) ++ map_of (rev (filter (\<lambda>p. fst p \<noteq> proto) es))
        = map_of m ++ map_of (rev (filter (\<lambda>p. fst p \<noteq> proto) (p # es)))"
      using False
      by (auto simp: p map_of_obj_set map_add_def fun_eq_iff split: option.splits)
    with Cons.IH [OF fresh] show ?thesis
      by (simp add: p)
  qed
qed

lemma assignments_fresh:
  "distinct (map fst m @ map fst es) \<Longrightarrow>
   list_all (\<lambda>p. \<not> is_array_index (fst p) \<and> fst p \<noteq> proto) es \<Longrightarrow>
   foldl (\<lambda>layersObject (key, value). obj_set key value layersObject) m es = m @ es"
proof (induction es arbitrary: m)
  case Nil
  show ?case by simp
next
  case (Cons p es)
  obtain k v where p: "p = (k, v)"
    by (cases p)
  from Cons.prems have "obj_set k v m = m @ [(k, v)]"
    by (simp add: p obj_set_fresh)
  moreover from Cons.prems have "distinct (map fst (m @ [(k, v)]) @ map fst es)"
    by (auto simp: p)
  ultimately show ?case
    using Cons.IH [of "m @ [(k, v)]"] Cons.prems by (simp add: p)
qed

text \<open>
  C7, as the code has it. The keys of the mapping that \<open>setFeatureLayers\<close> returns are
  unique, but an entry can be lost: of the entries that share a name, the mapping holds the
  value of the last one (the last write wins), and an entry named \<^verbatim>\<open>__proto__\<close> is never in
  the mapping. When all the names handed in are pairwise distinct and none of them is
  \<^verbatim>\<open>__proto__\<close>, every entry is found in the mapping under its name.
\<close>

theorem setFeatureLayers_last_write_wins:
  "distinct (map fst (setFeatureLayers layerGroups))
   \<and> map_of (setFeatureLayers layerGroups)
     = map_of (rev (filter (\<lambda>p. fst p \<noteq> proto) (concat (map Object_entries layerGroups))))
   \<and> (distinct (map fst (concat (map Object_entries layerGroups)))
      \<and> list_all (\<lambda>p. fst p \<noteq> proto) (concat (map Object_entries layerGroups))
      \<longrightarrow> retains_all layerGroups)"
proof (intro conjI impI)
  let ?es = "concat (map Object_entries layerGroups)"
  show "distinct (map fst (setFeatureLayers layerGroups))"
    by (simp add: setFeatureLayers_assignments assignments_distinct)
  show m: "map_of (setFeatureLayers layerGroups)
      = map_of (rev (filter (\<lambda>p. fst p \<noteq> proto) ?es))"
    using assignments_map_of [of "[]" ?es] by (simp add: setFeatureLayers_assignments)
  assume "distinct (map fst ?es) \<and> list_all (\<lambda>p. fst p \<noteq> proto) ?es"
  then have d: "distinct (map fst ?es)" and "filter (\<lambda>p. fst p \<noteq> proto) ?es = ?es"
    by (simp_all add: list_all_iff)
  then have m': "map_of (setFeatureLayers layerGroups) = map_of (rev ?es)"
    using m by simp
  have "map_of (rev ?es) k = Some v" if "(k, v) \<in> set ?es" for k v
  proof -
    from d have "distinct (map fst (rev ?es))"
      by (simp only: rev_map [symmetric] distinct_rev)
    moreover from that have "(k, v) \<in> set (rev ?es)"
      by simp
    ultimately show ?thesis
      by (rule map_of_is_SomeI)
  qed
  then show "retains_all layerGroups"
    unfolding retains_all_def m' by (auto simp: list_all_iff)
qed

theorem setFeatureLayers_last_write_wins_witness:
  "distinct (map fst (concat (map Object_entries
      [Plain [(''Enemies'', VLayer (LayerGroup []))],
       Plain [(''Edmonton Parks'', VLayer (GeoJSONLayer [] []))]])))
   \<and> list_all (\<lambda>p. fst p \<noteq> proto) (concat (map Object_entries
      [Plain [(''Enemies'', VLayer (LayerGroup []))],
       Plain [(''Edmonton Parks'', VLayer (GeoJSONLayer [] []))]]))
   \<and> retains_all
      [Plain [(''Enemies'', VLayer (LayerGroup []))],
       Plain [(''Edmonton Parks'', VLayer (GeoJSONLayer [] []))]]"
  using setFeatureLayers_last_write_wins
    [of "[Plain [(''Enemies'', VLayer (LayerGroup []))],
          Plain [(''Edmonton Parks'', VLayer (GeoJSONLayer [] []))]]"]
  by simp

text \<open>
  C7, as it is stated, fails. Two entries named \<^verbatim>\<open>Enemies\<close>: the mapping holds the second
  layer only, and the first one is gone without any error. An entry named \<^verbatim>\<open>__proto__\<close>
  beside an entry of another name: the mapping holds the other entry only.
\<close>

theorem setFeatureLayers_overwrites_counterexample:
  "setFeatureLayers
     [Plain [(''Enemies'', VLayer (LayerGroup []))],
      Plain [(''Enemies'', VLayer (GeoJSONLayer [] []))]]
     = [(''Enemies'', VLayer (GeoJSONLayer [] []))]
   \<and> \<not> retains_all
      [Plain [(''Enemies'', VLayer (LayerGroup []))],
       Plain [(''Enemies'', VLayer (GeoJSONLayer [] []))]]
   \<and> setFeatureLayers
     [Plain [(''__proto__'', VLayer (LayerGroup []))],
      Plain [(''Enemies'', VLayer (GeoJSONLayer [] []))]]
     = [(''Enemies'', VLayer (GeoJSONLayer [] []))]
   \<and> \<not> retains_all
      [Plain [(''__proto__'', VLayer (LayerGroup []))],
       Plain [(''Enemies'', VLayer (GeoJSONLayer [] []))]]"
  by (simp add: setFeatureLayers_def retains_all_def obj_set_def is_array_index_def is_digit_def)

section \<open>Popup labels\<close>

lemma onEachFeature_label:
  "properties f = Some props \<Longrightarrow>
   onEachFeature labelAttr f =
     Inr (if map_of (rev props) labelAttr = None \<and> labelAttr \<in> set object_prototype
          then Inherited labelAttr else Own (spec_popup_text labelAttr props))"
  by (simp add: onEachFeature_def get_property_def spec_popup_text_def
      split: option.splits json.splits)

lemma null_properties:
  "onEachFeature labelAttr \<lparr>properties = None, geometry = g\<rparr> = Inl TypeError"
  by (simp add: onEachFeature_def)

text \<open>
  C6, as the code has it. For a parsed document in which no geometry is malformed and every
  feature with a geometry carries a \<^verbatim>\<open>properties\<close> object, \<open>setGeoJson\<close> returns a layer
  that holds the features with a geometry, in order; a feature without geometry gets no
  popup. The popup bound to a feature is the value \<^verbatim>\<open>properties[labelAttr]\<close> when that is not
  \<^verbatim>\<open>undefined\<close> or \<^verbatim>\<open>null\<close>, and the placeholder \<^verbatim>\<open>Unnamed\<close> otherwise, where the value is
  that of the feature's own property of that name or else, when \<open>labelAttr\<close> names a
  member of \<^verbatim>\<open>Object.prototype\<close>, that inherited member. For every other \<open>labelAttr\<close> this
  is the text that the specification states.
\<close>

theorem popup_label:
  assumes "list_all (\<lambda>f. case geometry f of NoGeometry \<Rightarrow> True | Malformed \<Rightarrow> False
                        | Drawable \<Rightarrow> properties f \<noteq> None) fs"
  shows "setGeoJson (Collection fs) labelAttr st =
     Inr (GeoJSONLayer st
       (map (\<lambda>f. (f, if map_of (rev (the (properties f))) labelAttr = None
                         \<and> labelAttr \<in> set object_prototype
                      then Inherited labelAttr
                      else Own (spec_popup_text labelAttr (the (properties f)))))
          (filter (\<lambda>f. geometry f = Drawable) fs)))"
proof -
  have "addData (onEachFeature labelAttr) fs =
     Inr (map (\<lambda>f. (f, if map_of (rev (the (properties f))) labelAttr = None
                         \<and> labelAttr \<in> set object_prototype
                      then Inherited labelAttr
                      else Own (spec_popup_text labelAttr (the (properties f)))))
          (filter (\<lambda>f. geometry f = Drawable) fs))"
    using assms
  proof (induction fs)
    case Nil
    show ?case by simp
  next
    case (Cons f fs)
    show ?case
    proof (cases "geometry f")
      case NoGeometry
      with Cons show ?thesis by simp
    next
      case Malformed
      with Cons.prems show ?thesis by simp
    next
      case Drawable
      with Cons.prems obtain props where "properties f = Some props"
        by auto
      with Cons Drawable show ?thesis
        by (simp add: onEachFeature_label)
    qed
  qed
  then show ?thesis
    by (simp add: setGeoJson_def)
qed

theorem popup_label_witness:
  "list_all (\<lambda>f. case geometry f of NoGeometry \<Rightarrow> True | Malformed \<Rightarrow> False
                | Drawable \<Rightarrow> properties f \<noteq> None)
     [\<lparr>properties = Some [(''offname'', JStr ''Hawrelak Park'')], geometry = Drawable\<rparr>,
      \<lparr>properties = Some [(''offname'', JNull)], geometry = Drawable\<rparr>,
      \<lparr>properties = Some [(''id'', JNum 7)], geometry = Drawable\<rparr>,
      \<lparr>properties = None, geometry = NoGeometry\<rparr>]
   \<and> setGeoJson parks_response ''offname'' [(''color'', ''green'')]
     = Inr (GeoJSONLayer [(''color'', ''green'')]
               [(\<lparr>properties = Some [(''offname'', JStr ''Hawrelak Park'')], geometry = Drawable\<rparr>,
                 Own (JStr ''Hawrelak Park'')),
                (\<lparr>properties = Some [(''offname'', JNull)], geometry = Drawable\<rparr>,
                 Own (JStr ''Unnamed'')),
                (\<lparr>properties = Some [(''id'', JNum 7)], geometry = Drawable\<rparr>,
                 Own (JStr ''Unnamed''))])"
  using popup_label
    [of "[\<lparr>properties = Some [(''offname'', JStr ''Hawrelak Park'')], geometry = Drawable\<rparr>,
          \<lparr>properties = Some [(''offname'', JNull)], geometry = Drawable\<rparr>,
          \<lparr>properties = Some [(''id'', JNum 7)], geometry = Drawable\<rparr>,
          \<lparr>properties = None, geometry = NoGeometry\<rparr>]"
        "''offname''" "[(''color'', ''green'')]"]
  by (simp add: parks_response_def spec_popup_text_def object_prototype_def)

text \<open>
  C6, as it is stated, fails. With the label attribute \<^verbatim>\<open>toString\<close>, which the feature does
  not have, the popup is not the placeholder but the function that every object inherits.
  A feature with a geometry whose \<^verbatim>\<open>properties\<close> member is \<^verbatim>\<open>null\<close> gets no popup at all:
  line 185 throws, and \<open>setGeoJson\<close> returns no layer.
\<close>

theorem popup_label_counterexample:
  "setGeoJson
     (Collection [\<lparr>properties = Some [(''offname'', JStr ''Hawrelak Park'')], geometry = Drawable\<rparr>])
     ''toString'' [(''color'', ''green'')]
     = Inr (GeoJSONLayer [(''color'', ''green'')]
         [(\<lparr>properties = Some [(''offname'', JStr ''Hawrelak Park'')], geometry = Drawable\<rparr>,
           Inherited ''toString'')])
   \<and> spec_popup_text ''toString'' [(''offname'', JStr ''Hawrelak Park'')] = JStr ''Unnamed''
   \<and> setGeoJson (Collection [\<lparr>properties = None, geometry = Drawable\<rparr>])
     ''offname'' [(''color'', ''green'')] = Inl TypeError"
  by (simp add: setGeoJson_def onEachFeature_def get_property_def object_prototype_def
      spec_popup_text_def)

section \<open>Clicks on the map\<close>

lemma clicks_shape:
  "clicks es = \<lparr>userInput = (if es = [] then None
        else Some \<lparr>mid = length es - 1, position = last es, popup = ''Possible Enemy Location''\<rparr>),
      on_map = (if es = [] then []
        else [\<lparr>mid = length es - 1, position = last es, popup = ''Possible Enemy Location''\<rparr>]),
      fresh = length es\<rparr>"
proof (induction es rule: rev_induct)
  case Nil
  show ?case by (simp add: clicks_def loaded_def)
next
  case (snoc e es)
  have "clicks (es @ [e]) = click e (clicks es)"
    by (simp add: clicks_def)
  then show ?case
    by (simp add: snoc.IH click_def removeLayer_def addTo_def Let_def)
qed

text \<open>
  C8. After any sequence of clicks at most one marker placed by a click is on the map. With
  no click there is none; after a click it is the marker created by that click, at the
  position of that click, and \<^verbatim>\<open>m.userInput\<close> holds it: the marker of the click before
  has been removed.
\<close>

theorem one_transient_marker:
  "on_map (clicks []) = []
   \<and> on_map (clicks (es @ [e]))
     = [\<lparr>mid = length es, position = e, popup = ''Possible Enemy Location''\<rparr>]
   \<and> userInput (clicks (es @ [e]))
     = Some \<lparr>mid = length es, position = e, popup = ''Possible Enemy Location''\<rparr>
   \<and> length (on_map (clicks es)) \<le> 1"
  by (simp add: clicks_shape)

theorem one_transient_marker_witness:
  "on_map (clicks ([(53.5, -113.5)] @ [(53.6, -113.4)]))
     = [\<lparr>mid = 1, position = (53.6, -113.4), popup = ''Possible Enemy Location''\<rparr>]"
  using one_transient_marker [of "[(53.5, -113.5)]" "(53.6, -113.4)"]
  by simp

section \<open>One turn of the event loop\<close>

lemma addData_again: "addData cb fs = Inr ps \<Longrightarrow> addData cb (map fst ps) = Inr ps"
proof (induction fs arbitrary: ps)
  case Nil
  then show ?case by simp
next
  case (Cons f fs)
  show ?case
  proof (cases "geometry f")
    case NoGeometry
    with Cons show ?thesis by simp
  next
    case Malformed
    with Cons.prems show ?thesis by simp
  next
    case Drawable
    with Cons.prems obtain c qs where "cb f = Inr c" "addData cb fs = Inr qs" "ps = (f, c) # qs"
      by (auto split: sum.splits)
    with Cons.IH [of qs] Drawable show ?thesis
      by simp
  qed
qed

lemma addData_error: "addData (onEachFeature a) fs = Inl e \<Longrightarrow> e \<noteq> NotADescriptor"
proof (induction fs)
  case Nil
  then show ?case by simp
next
  case (Cons f fs)
  then show ?case
    by (cases "geometry f")
      (auto simp: onEachFeature_def split: sum.splits option.splits content.splits json.splits)
qed

lemma setGeoJson_parsed_for:
  assumes "setGeoJson json (attr d) (style d) = Inr l"
  shows "parsed_for d l"
proof -
  from assms obtain fs ps where json: "json = Collection fs"
    and ps: "addData (onEachFeature (attr d)) fs = Inr ps"
    and l: "l = GeoJSONLayer (style d) ps"
    by (cases json) (auto simp: setGeoJson_def split: sum.splits)
  from ps have "addData (onEachFeature (attr d)) (map fst ps) = Inr ps"
    by (rule addData_again)
  with l show ?thesis
    by (simp add: setGeoJson_def)
qed

lemma setGeoJson_error: "setGeoJson json a st = Inl e \<Longrightarrow> e \<noteq> NotADescriptor"
  by (cases json) (auto simp: setGeoJson_def split: sum.splits dest: addData_error)

lemma retrieval_parsed_for: "retrieval d r = Inr l \<Longrightarrow> parsed_for d l"
  by (auto simp: retrieval_def split: reply.splits sum.splits dest: setGeoJson_parsed_for)

lemma retrieval_error: "retrieval d r = Inl es \<Longrightarrow> NotADescriptor \<notin> set es"
  by (auto simp: retrieval_def JSON_parse_def split: reply.splits sum.splits option.splits
      dest: setGeoJson_error)

lemma deliver_idle: "xhttp s = None \<Longrightarrow> deliver pre tls r s = s"
  by (simp add: deliver_def)

lemma run_idle: "xhttp s = None \<Longrightarrow> run pre tls rs s = s"
  by (induction rs) (simp_all add: run_def deliver_idle)

lemma deliver_fail:
  assumes "xhttp s = Some (u, i)" "i < length (objects s)" "objects s ! i = Descriptor d"
    and "retrieval d r = Inl es"
  shows "deliver pre tls r s = s\<lparr>xhttp := None, uncaught := uncaught s @ es\<rparr>"
  using assms
  by (auto simp: deliver_def onload_def retrieval_def split: reply.splits sum.splits)

lemma deliver_load_last:
  assumes "xhttp s = Some (u, i)" "Suc i = length (objects s)" "objects s ! i = Descriptor d"
    and "retrieval d r = Inr l"
  shows "deliver pre tls r s =
     s\<lparr>xhttp := None, objects := (objects s)[i := Plain (obj_set (name d) (VLayer l) [])],
       controls := controls s @
         [\<lparr>basemaps = tls,
           overlays = setFeatureLayers
             (pre @ (objects s)[i := Plain (obj_set (name d) (VLayer l) [])])\<rparr>]\<rparr>"
proof -
  from assms(4) obtain json where r: "r = Load (Some json)"
    and l: "setGeoJson json (attr d) (style d) = Inr l"
    by (auto simp: retrieval_def JSON_parse_def split: reply.splits sum.splits option.splits)
  from assms(2) have i: "i < length (objects s)"
    by simp
  show ?thesis
    using assms(1-3) i
    by (simp add: deliver_def onload_def JSON_parse_def r l recursivexhttp_def Let_def)
qed

lemma deliver_load_next:
  assumes "xhttp s = Some (u, i)" "Suc i < length (objects s)" "objects s ! i = Descriptor d"
    and "objects s ! Suc i = Descriptor d'" and "retrieval d r = Inr l"
  shows "deliver pre tls r s =
     s\<lparr>xhttp := Some (src d', Suc i),
       objects := (objects s)[i := Plain (obj_set (name d) (VLayer l) [])],
       sent := sent s @ [src d']\<rparr>"
proof -
  from assms(5) obtain json where r: "r = Load (Some json)"
    and l: "setGeoJson json (attr d) (style d) = Inr l"
    by (auto simp: retrieval_def JSON_parse_def split: reply.splits sum.splits option.splits)
  from assms(2) have i: "i < length (objects s)"
    by simp
  show ?thesis
    using assms(1-4) i
    by (simp add: deliver_def onload_def JSON_parse_def r l recursivexhttp_def Let_def)
qed

section \<open>The states a session reaches\<close>

lemma entry_for_stored: "parsed_for d l \<Longrightarrow> entry_for d (Plain (obj_set (name d) (VLayer l) []))"
  by (simp add: obj_set_empty)

lemma shape_fail:
  "shape descs pre tls k s \<Longrightarrow> NotADescriptor \<notin> set es \<Longrightarrow>
   shape descs pre tls k (s\<lparr>xhttp := None, uncaught := uncaught s @ es\<rparr>)"
  by (auto simp: shape_def)

lemma shape_last:
  assumes "shape descs pre tls k s" "Suc k = length descs" "parsed_for (descs ! k) l"
  shows "shape descs pre tls (Suc k)
     (s\<lparr>xhttp := None, objects := (objects s)[k := Plain (obj_set (name (descs ! k)) (VLayer l) [])],
        controls := controls s @
          [\<lparr>basemaps = tls,
            overlays = setFeatureLayers
              (pre @ (objects s)[k := Plain (obj_set (name (descs ! k)) (VLayer l) [])])\<rparr>]\<rparr>)"
  using assms by (auto simp: shape_def nth_list_update less_Suc_eq entry_for_stored)

lemma shape_next:
  assumes "shape descs pre tls k s" "Suc k < length descs" "parsed_for (descs ! k) l"
  shows "shape descs pre tls (Suc k)
     (s\<lparr>xhttp := Some (src (descs ! Suc k), Suc k),
        objects := (objects s)[k := Plain (obj_set (name (descs ! k)) (VLayer l) [])],
        sent := sent s @ [src (descs ! Suc k)]\<rparr>)"
  using assms
  by (auto simp: shape_def nth_list_update less_Suc_eq entry_for_stored
      take_Suc_conv_app_nth [of "Suc k"])

lemma deliver_cases:
  assumes sh: "shape descs pre tls k s"
  obtains (idle) "xhttp s = None" "deliver pre tls r s = s"
  | (failed) es where "k < length descs" "xhttp s = Some (src (descs ! k), k)"
      "retrieval (descs ! k) r = Inl es"
      "deliver pre tls r s = s\<lparr>xhttp := None, uncaught := uncaught s @ es\<rparr>"
      "shape descs pre tls k (deliver pre tls r s)"
  | (stored) l where "k < length descs" "xhttp s = Some (src (descs ! k), k)"
      "retrieval (descs ! k) r = Inr l"
      "objects (deliver pre tls r s) = (objects s)[k := Plain (obj_set (name (descs ! k)) (VLayer l) [])]"
      "xhttp (deliver pre tls r s)
         = (if Suc k < length descs then Some (src (descs ! Suc k), Suc k) else None)"
      "shape descs pre tls (Suc k) (deliver pre tls r s)"
proof (cases "xhttp s")
  case None
  then show ?thesis
    by (intro idle) (simp_all add: deliver_idle)
next
  case (Some p)
  with sh have k: "k < length descs" and x: "xhttp s = Some (src (descs ! k), k)"
    by (auto simp: shape_def split: if_splits)
  from sh k have len: "length (objects s) = length descs"
    and d: "objects s ! k = Descriptor (descs ! k)"
    by (auto simp: shape_def)
  show ?thesis
  proof (cases "retrieval (descs ! k) r")
    case (Inl es)
    from x k d Inl have "deliver pre tls r s = s\<lparr>xhttp := None, uncaught := uncaught s @ es\<rparr>"
      by (intro deliver_fail) (simp_all add: len)
    moreover from sh Inl have "shape descs pre tls k (s\<lparr>xhttp := None, uncaught := uncaught s @ es\<rparr>)"
      by (intro shape_fail retrieval_error)
    ultimately show ?thesis
      using Inl x k by (intro failed) simp_all
  next
    case (Inr l)
    then have p: "parsed_for (descs ! k) l"
      by (rule retrieval_parsed_for)
    show ?thesis
    proof (cases "Suc k = length descs")
      case True
      with x d Inr have "deliver pre tls r s =
         s\<lparr>xhttp := None, objects := (objects s)[k := Plain (obj_set (name (descs ! k)) (VLayer l) [])],
           controls := controls s @
             [\<lparr>basemaps = tls,
               overlays = setFeatureLayers
                 (pre @ (objects s)[k := Plain (obj_set (name (descs ! k)) (VLayer l) [])])\<rparr>]\<rparr>"
        by (intro deliver_load_last) (simp_all add: len)
      with shape_last [OF sh True p] k x Inr True show ?thesis
        by (intro stored) simp_all
    next
      case False
      with k have more: "Suc k < length descs"
        by simp
      with sh have d': "objects s ! Suc k = Descriptor (descs ! Suc k)"
        by (simp add: shape_def)
      from x more d d' Inr have "deliver pre tls r s =
         s\<lparr>xhttp := Some (src (descs ! Suc k), Suc k),
           objects := (objects s)[k := Plain (obj_set (name (descs ! k)) (VLayer l) [])],
           sent := sent s @ [src (descs ! Suc k)]\<rparr>"
        by (intro deliver_load_next) (simp_all add: len)
      with shape_next [OF sh more p] k x Inr more show ?thesis
        by (intro stored) simp_all
    qed
  qed
qed

lemma setAllControls_start:
  "\<exists>s. setAllControls (map Descriptor descs) pre tls
          = Inr (s, if descs = [] then Some pre else None)
       \<and> shape descs pre tls 0 s"
proof (cases "descs = []")
  case True
  then show ?thesis
    by (simp add: setAllControls_def recursivexhttp_def shape_def Let_def)
next
  case False
  then have "0 < length descs"
    by simp
  with False show ?thesis
    by (simp add: setAllControls_def recursivexhttp_def shape_def Let_def
        take_Suc_conv_app_nth [of 0])
qed

lemma session_snoc:
  "session descs pre tls rs = Inr s \<Longrightarrow>
   session descs pre tls (rs @ [r]) = Inr (deliver pre tls r s)"
  by (auto simp: session_def run_def split: sum.splits)

lemma session_append:
  "session descs pre tls rs = Inr s \<Longrightarrow>
   session descs pre tls (rs @ rs') = Inr (run pre tls rs' s)"
  by (auto simp: session_def run_def split: sum.splits)

lemma reachable_shape:
  "\<exists>s k. session descs pre tls rs = Inr s \<and> shape descs pre tls k s \<and> k \<le> length rs"
proof (induction rs rule: rev_induct)
  case Nil
  from setAllControls_start [of descs pre tls] show ?case
    by (auto simp: session_def run_def)
next
  case (snoc r rs)
  then obtain s k where s: "session descs pre tls rs = Inr s"
    and sh: "shape descs pre tls k s" and k: "k \<le> length rs"
    by blast
  from sh show ?case
  proof (cases rule: deliver_cases [where r = r])
    case idle
    with sh k session_snoc [OF s, of r] show ?thesis
      by auto
  next
    case (failed es)
    with k session_snoc [OF s, of r] show ?thesis
      by auto
  next
    case (stored l)
    with k session_snoc [OF s, of r] show ?thesis
      by auto
  qed
qed

lemma entry_for_elim:
  "entry_for d ob \<Longrightarrow> name d \<noteq> proto \<Longrightarrow> \<exists>l. ob = Plain [(name d, VLayer l)] \<and> parsed_for d l"
  by (induction d ob rule: entry_for.induct) simp_all

lemma entries_names:
  "list_all2 entry_for descs obs \<Longrightarrow> list_all (\<lambda>k. k \<noteq> proto) (map name descs) \<Longrightarrow>
   map fst (concat (map Object_entries obs)) = map name descs"
  by (induction descs obs rule: list_all2_induct) (auto dest: entry_for_elim)

text \<open>
  When every descriptor's response is parsed into a layer, the session goes through the
  whole list: after \<open>j\<close> replies the first \<open>j\<close> descriptors are realized, and after the
  last one the control is on the map.
\<close>

lemma loaded_prefix:
  assumes "\<forall>i<length descs. \<exists>l. retrieval (descs ! i) (rs ! i) = Inr l"
    and "length rs = length descs" and "j \<le> length descs"
  shows "\<exists>s. session descs pre tls (take j rs) = Inr s \<and> shape descs pre tls j s
     \<and> xhttp s = (if j < length descs then Some (src (descs ! j), j) else None)"
  using assms(3)
proof (induction j)
  case 0
  obtain s where s: "setAllControls (map Descriptor descs) pre tls
      = Inr (s, if descs = [] then Some pre else None)"
    and sh: "shape descs pre tls 0 s"
    using setAllControls_start by blast
  have "xhttp s = (if 0 < length descs then Some (src (descs ! 0), 0) else None)"
    using s by (auto simp: setAllControls_def recursivexhttp_def Let_def split: if_splits)
  with s sh show ?case
    by (simp add: session_def run_def)
next
  case (Suc j)
  then obtain s where s: "session descs pre tls (take j rs) = Inr s"
    and sh: "shape descs pre tls j s" and x: "xhttp s = Some (src (descs ! j), j)"
    by auto
  from Suc.prems have j: "j < length descs"
    by simp
  with assms(1) obtain l where l: "retrieval (descs ! j) (rs ! j) = Inr l"
    by blast
  from Suc.prems assms(2) have "take (Suc j) rs = take j rs @ [rs ! j]"
    by (simp add: take_Suc_conv_app_nth)
  with s have step: "session descs pre tls (take (Suc j) rs) = Inr (deliver pre tls (rs ! j) s)"
    by (simp add: session_snoc)
  from sh show ?case
  proof (cases rule: deliver_cases [where r = "rs ! j"])
    case idle
    with x show ?thesis
      by simp
  next
    case (failed es)
    with l show ?thesis
      by simp
  next
    case (stored l')
    with step show ?thesis
      by simp
  qed
qed

lemma all_loaded_completes:
  assumes "\<forall>i<length descs. \<exists>l. retrieval (descs ! i) (rs ! i) = Inr l"
    and "length rs = length descs"
  shows "\<exists>s. session descs pre tls rs = Inr s \<and> list_all2 entry_for descs (objects s)
     \<and> controls s = [\<lparr>basemaps = tls, overlays = setFeatureLayers (pre @ objects s)\<rparr>]"
proof -
  from loaded_prefix [OF assms, of "length descs" pre tls] assms(2)
  obtain s where "session descs pre tls rs = Inr s" and "shape descs pre tls (length descs) s"
    by auto
  then show ?thesis
    by (auto simp: shape_def list_all2_conv_all_nth)
qed

section \<open>Sessions of the configured viewer\<close>

lemma names_not_indices:
  "\<not> is_array_index ''Enemies''" "\<not> is_array_index ''Edmonton Parks''"
  "\<not> is_array_index ''Edmonton Roads''"
  by (simp_all add: is_array_index_def is_digit_def)

lemma example_started:
  "session geoJSON [marker] basemapTiles [] =
   Inr \<lparr>objects = map Descriptor geoJSON, xhttp = Some (''json/EdmontonParks.geojson'', 0),
        controls = [], sent = [''json/EdmontonParks.geojson''], aborted = [], uncaught = []\<rparr>"
  by (simp add: session_def setAllControls_def recursivexhttp_def run_def geoJSON_def)

lemma example_first_load:
  "session geoJSON [marker] basemapTiles ([] @ [Load (Some parks_response)]) =
   Inr \<lparr>objects =
          [Plain [(''Edmonton Parks'', VLayer (GeoJSONLayer [(''color'', ''green'')]
               [(\<lparr>properties = Some [(''offname'', JStr ''Hawrelak Park'')], geometry = Drawable\<rparr>,
                 Own (JStr ''Hawrelak Park'')),
                (\<lparr>properties = Some [(''offname'', JNull)], geometry = Drawable\<rparr>,
                 Own (JStr ''Unnamed'')),
                (\<lparr>properties = Some [(''id'', JNum 7)], geometry = Drawable\<rparr>,
                 Own (JStr ''Unnamed''))]))],
           Descriptor (geoJSON ! 1)],
        xhttp = Some (''json/EdmontonRoads.geojson'', 1),
        controls = [],
        sent = [''json/EdmontonParks.geojson'', ''json/EdmontonRoads.geojson''],
        aborted = [], uncaught = []\<rparr>"
  by (simp add: session_def setAllControls_def recursivexhttp_def run_def deliver_def onload_def
      JSON_parse_def setGeoJson_def onEachFeature_def get_property_def object_prototype_def
      setFeatureLayers_def Let_def obj_set_empty obj_set_fresh obj_set_present
      geoJSON_def parks_response_def)

lemma example_complete:
  "session geoJSON [marker] basemapTiles [Load (Some parks_response), Load (Some roads_response)] =
   Inr \<lparr>objects =
        [Plain [(''Edmonton Parks'', VLayer (GeoJSONLayer [(''color'', ''green'')]
               [(\<lparr>properties = Some [(''offname'', JStr ''Hawrelak Park'')], geometry = Drawable\<rparr>,
                 Own (JStr ''Hawrelak Park'')),
                (\<lparr>properties = Some [(''offname'', JNull)], geometry = Drawable\<rparr>,
                 Own (JStr ''Unnamed'')),
                (\<lparr>properties = Some [(''id'', JNum 7)], geometry = Drawable\<rparr>,
                 Own (JStr ''Unnamed''))]))],
         Plain [(''Edmonton Roads'', VLayer (GeoJSONLayer [(''color'', ''purple'')]
               [(\<lparr>properties = Some [(''name_ab'', JStr ''Whyte Ave'')], geometry = Drawable\<rparr>,
                 Own (JStr ''Whyte Ave''))]))]],
        xhttp = None,
        controls =
          [\<lparr>basemaps = basemapTiles,
              overlays =
                [(''Enemies'', VLayer (setMarkers [pointLongLat])),
                 (''Edmonton Parks'', VLayer (GeoJSONLayer [(''color'', ''green'')]
               [(\<lparr>properties = Some [(''offname'', JStr ''Hawrelak Park'')], geometry = Drawable\<rparr>,
                 Own (JStr ''Hawrelak Park'')),
                (\<lparr>properties = Some [(''offname'', JNull)], geometry = Drawable\<rparr>,
                 Own (JStr ''Unnamed'')),
                (\<lparr>properties = Some [(''id'', JNum 7)], geometry = Drawable\<rparr>,
                 Own (JStr ''Unnamed''))])),
                 (''Edmonton Roads'', VLayer (GeoJSONLayer [(''color'', ''purple'')]
               [(\<lparr>properties = Some [(''name_ab'', JStr ''Whyte Ave'')], geometry = Drawable\<rparr>,
                 Own (JStr ''Whyte Ave''))]))]\<rparr>],
        sent = [''json/EdmontonParks.geojson'', ''json/EdmontonRoads.geojson''],
        aborted = [], uncaught = []\<rparr>"
  by (simp add: session_def setAllControls_def recursivexhttp_def run_def deliver_def onload_def
      JSON_parse_def setGeoJson_def onEachFeature_def get_property_def object_prototype_def
      setFeatureLayers_def Let_def obj_set_empty obj_set_fresh obj_set_present
      geoJSON_def marker_def parks_response_def roads_response_def names_not_indices)

lemma example_entries:
  "list_all2 entry_for geoJSON
     [Plain [(''Edmonton Parks'', VLayer (GeoJSONLayer [(''color'', ''green'')]
               [(\<lparr>properties = Some [(''offname'', JStr ''Hawrelak Park'')], geometry = Drawable\<rparr>,
                 Own (JStr ''Hawrelak Park'')),
                (\<lparr>properties = Some [(''offname'', JNull)], geometry = Drawable\<rparr>,
                 Own (JStr ''Unnamed'')),
                (\<lparr>properties = Some [(''id'', JNum 7)], geometry = Drawable\<rparr>,
                 Own (JStr ''Unnamed''))]))],
      Plain [(''Edmonton Roads'', VLayer (GeoJSONLayer [(''color'', ''purple'')]
               [(\<lparr>properties = Some [(''name_ab'', JStr ''Whyte Ave'')], geometry = Drawable\<rparr>,
                 Own (JStr ''Whyte Ave''))]))]]"
  by (simp add: geoJSON_def setGeoJson_def onEachFeature_def get_property_def
      object_prototype_def)

lemma collision_example:
  "session
     [\<lparr>name = ''Edmonton Parks'', attr = ''offname'', src = ''json/EdmontonParks.geojson'',
        style = [(''color'', ''green'')]\<rparr>,
      \<lparr>name = ''Enemies'', attr = ''name'', src = ''json/Enemies.geojson'',
        style = [(''color'', ''red'')]\<rparr>]
     [marker] basemapTiles [Load (Some (Collection [])), Load (Some (Collection []))] =
   Inr \<lparr>objects =
          [Plain [(''Edmonton Parks'', VLayer (GeoJSONLayer [(''color'', ''green'')] []))],
           Plain [(''Enemies'', VLayer (GeoJSONLayer [(''color'', ''red'')] []))]],
        xhttp = None,
        controls =
          [\<lparr>basemaps = basemapTiles,
             overlays =
               [(''Enemies'', VLayer (GeoJSONLayer [(''color'', ''red'')] [])),
                (''Edmonton Parks'', VLayer (GeoJSONLayer [(''color'', ''green'')] []))]\<rparr>],
        sent = [''json/EdmontonParks.geojson'', ''json/Enemies.geojson''],
        aborted = [], uncaught = []\<rparr>"
  by (simp add: session_def setAllControls_def recursivexhttp_def run_def deliver_def onload_def
      JSON_parse_def setGeoJson_def onEachFeature_def get_property_def object_prototype_def
      setFeatureLayers_def Let_def obj_set_empty obj_set_fresh obj_set_present
      marker_def names_not_indices)

lemma years_example:
  "session
     [\<lparr>name = ''2021'', attr = ''offname'', src = ''json/2021.geojson'', style = []\<rparr>,
      \<lparr>name = ''2020'', attr = ''offname'', src = ''json/2020.geojson'', style = []\<rparr>]
     [marker] basemapTiles [Load (Some (Collection [])), Load (Some (Collection []))] =
   Inr \<lparr>objects =
          [Plain [(''2021'', VLayer (GeoJSONLayer [] []))],
           Plain [(''2020'', VLayer (GeoJSONLayer [] []))]],
        xhttp = None,
        controls =
          [\<lparr>basemaps = basemapTiles,
             overlays =
               [(''2020'', VLayer (GeoJSONLayer [] [])),
                (''2021'', VLayer (GeoJSONLayer [] [])),
                (''Enemies'', VLayer (setMarkers [pointLongLat]))]\<rparr>],
        sent = [''json/2021.geojson'', ''json/2020.geojson''],
        aborted = [], uncaught = []\<rparr>"
  by (simp add: session_def setAllControls_def recursivexhttp_def run_def deliver_def onload_def
      JSON_parse_def setGeoJson_def setFeatureLayers_def Let_def marker_def
      obj_set_def is_array_index_def precedes_def index_value_def digit_value_def is_digit_def)

lemma proto_example:
  "session
     [\<lparr>name = ''__proto__'', attr = ''offname'', src = ''json/EdmontonParks.geojson'',
        style = [(''color'', ''green'')]\<rparr>]
     [marker] basemapTiles [Load (Some (Collection []))] =
   Inr \<lparr>objects = [Plain []],
        xhttp = None,
        controls =
          [\<lparr>basemaps = basemapTiles,
             overlays = [(''Enemies'', VLayer (setMarkers [pointLongLat]))]\<rparr>],
        sent = [''json/EdmontonParks.geojson''],
        aborted = [], uncaught = []\<rparr>"
  by (simp add: session_def setAllControls_def recursivexhttp_def run_def deliver_def onload_def
      JSON_parse_def setGeoJson_def setFeatureLayers_def Let_def marker_def
      obj_set_def is_array_index_def is_digit_def)

section \<open>The sequencer\<close>



text \<open>
  C2, as the code has it. The mapping handed to the control is built by assigning, in
  order, every pre-parsed entry first and then every realized entry in the order of the
  descriptors. When the names (the keys of the pre-parsed entries and the names of the
  descriptors) are pairwise distinct and none of them is an array index or \<^verbatim>\<open>__proto__\<close>,
  the mapping lists the pre-parsed entries first and then the realized entries, one per
  descriptor and under its name, in the order of the descriptors.
\<close>

theorem overlays_in_input_order:
  "\<exists>s. session descs pre tls rs = Inr s
     \<and> (if list_all2 entry_for descs (objects s)
        then map overlays (controls s) =
              [foldl (\<lambda>layersObject (key, value). obj_set key value layersObject) []
                 (concat (map Object_entries pre) @ concat (map Object_entries (objects s)))]
          \<and> (distinct (map fst (concat (map Object_entries pre)) @ map name descs)
              \<and> list_all (\<lambda>k. \<not> is_array_index k \<and> k \<noteq> proto)
                  (map fst (concat (map Object_entries pre)) @ map name descs)
              \<longrightarrow> map fst (concat (map Object_entries (objects s))) = map name descs
                \<and> map overlays (controls s)
                  = [concat (map Object_entries pre) @ concat (map Object_entries (objects s))])
        else controls s = [])"
proof -
  obtain s k where s: "session descs pre tls rs = Inr s" and sh: "shape descs pre tls k s"
    using reachable_shape by blast
  show ?thesis
  proof (cases "k = length descs")
    case False
    with sh have k: "k < length descs" and "objects s ! k = Descriptor (descs ! k)"
      and c: "controls s = []"
      by (auto simp: shape_def)
    then have "\<not> entry_for (descs ! k) (objects s ! k)"
      by simp
    with k have "\<not> list_all2 entry_for descs (objects s)"
      by (auto simp: list_all2_conv_all_nth)
    with s c show ?thesis
      by simp
  next
    case True
    let ?P = "concat (map Object_entries pre)" and ?E = "concat (map Object_entries (objects s))"
    from True sh have c: "controls s = [\<lparr>basemaps = tls, overlays = setFeatureLayers (pre @ objects s)\<rparr>]"
      and all: "list_all2 entry_for descs (objects s)"
      by (auto simp: shape_def list_all2_conv_all_nth)
    have built: "setFeatureLayers (pre @ objects s) =
        foldl (\<lambda>layersObject (key, value). obj_set key value layersObject) [] (?P @ ?E)"
      by (simp add: setFeatureLayers_assignments)
    have "map fst ?E = map name descs \<and> setFeatureLayers (pre @ objects s) = ?P @ ?E"
      if "distinct (map fst ?P @ map name descs)"
        and "list_all (\<lambda>k. \<not> is_array_index k \<and> k \<noteq> proto) (map fst ?P @ map name descs)"
    proof -
      from that(2) have "list_all (\<lambda>k. k \<noteq> proto) (map name descs)"
        by (simp add: list_all_iff)
      with all have names: "map fst ?E = map name descs"
        by (rule entries_names)
      then have keys: "map fst (?P @ ?E) = map fst ?P @ map name descs"
        by simp
      from that(1) have "distinct (map fst [] @ map fst (?P @ ?E))"
        by (simp only: keys list.map append_Nil)
      moreover from that(2)
      have "list_all (\<lambda>k. \<not> is_array_index k \<and> k \<noteq> proto) (map fst (?P @ ?E))"
        by (simp only: keys)
      then have "list_all (\<lambda>p. \<not> is_array_index (fst p) \<and> fst p \<noteq> proto) (?P @ ?E)"
        by (simp add: list.pred_map comp_def)
      ultimately have "foldl (\<lambda>layersObject (key, value). obj_set key value layersObject) [] (?P @ ?E)
          = [] @ (?P @ ?E)"
        by (rule assignments_fresh)
      with built names show ?thesis
        by simp
    qed
    with s c all built show ?thesis
      by simp
  qed
qed

theorem overlays_in_input_order_witness:
  "list_all2 entry_for geoJSON (objects (projr (session geoJSON [marker] basemapTiles
        [Load (Some parks_response), Load (Some roads_response)])))
   \<and> distinct (map fst (concat (map Object_entries [marker])) @ map name geoJSON)
   \<and> list_all (\<lambda>k. \<not> is_array_index k \<and> k \<noteq> proto)
        (map fst (concat (map Object_entries [marker])) @ map name geoJSON)
   \<and> map (map fst) (map overlays (controls (projr (session geoJSON [marker] basemapTiles
        [Load (Some parks_response), Load (Some roads_response)]))))
      = [[''Enemies'', ''Edmonton Parks'', ''Edmonton Roads'']]"
  using overlays_in_input_order [of geoJSON "[marker]" basemapTiles
      "[Load (Some parks_response), Load (Some roads_response)]"]
  unfolding example_complete
  by (simp add: example_entries)
    (simp add: geoJSON_def marker_def names_not_indices obj_set_empty obj_set_fresh)

text \<open>
  C2, as it is stated, fails. A descriptor named like the pre-parsed entry \<^verbatim>\<open>Enemies\<close>
  takes the place of that entry: its layer stands before the layer of the descriptor that
  precedes it in the list, and the pre-parsed layer is gone. Descriptors named \<^verbatim>\<open>2021\<close> and
  \<^verbatim>\<open>2020\<close>, in this order, are listed as \<^verbatim>\<open>2020\<close>, \<^verbatim>\<open>2021\<close>, and before the pre-parsed
  entry. A descriptor named \<^verbatim>\<open>__proto__\<close> is not in the mapping at all.
\<close>

theorem overlays_in_input_order_counterexample:
  "overlays (hd (controls (projr (session
      [\<lparr>name = ''Edmonton Parks'', attr = ''offname'', src = ''json/EdmontonParks.geojson'',
         style = [(''color'', ''green'')]\<rparr>,
       \<lparr>name = ''Enemies'', attr = ''name'', src = ''json/Enemies.geojson'',
         style = [(''color'', ''red'')]\<rparr>]
      [marker] basemapTiles [Load (Some (Collection [])), Load (Some (Collection []))]))))
     = [(''Enemies'', VLayer (GeoJSONLayer [(''color'', ''red'')] [])),
        (''Edmonton Parks'', VLayer (GeoJSONLayer [(''color'', ''green'')] []))]
   \<and> overlays (hd (controls (projr (session
      [\<lparr>name = ''Edmonton Parks'', attr = ''offname'', src = ''json/EdmontonParks.geojson'',
         style = [(''color'', ''green'')]\<rparr>,
       \<lparr>name = ''Enemies'', attr = ''name'', src = ''json/Enemies.geojson'',
         style = [(''color'', ''red'')]\<rparr>]
      [marker] basemapTiles [Load (Some (Collection [])), Load (Some (Collection []))]))))
     \<noteq> concat (map Object_entries [marker])
        @ [(''Edmonton Parks'', VLayer (GeoJSONLayer [(''color'', ''green'')] [])),
           (''Enemies'', VLayer (GeoJSONLayer [(''color'', ''red'')] []))]
   \<and> map fst (overlays (hd (controls (projr (session
      [\<lparr>name = ''2021'', attr = ''offname'', src = ''json/2021.geojson'', style = []\<rparr>,
       \<lparr>name = ''2020'', attr = ''offname'', src = ''json/2020.geojson'', style = []\<rparr>]
      [marker] basemapTiles [Load (Some (Collection [])), Load (Some (Collection []))])))))
     = [''2020'', ''2021'', ''Enemies'']
   \<and> map fst (overlays (hd (controls (projr (session
      [\<lparr>name = ''2021'', attr = ''offname'', src = ''json/2021.geojson'', style = []\<rparr>,
       \<lparr>name = ''2020'', attr = ''offname'', src = ''json/2020.geojson'', style = []\<rparr>]
      [marker] basemapTiles [Load (Some (Collection [])), Load (Some (Collection []))])))))
     \<noteq> map fst (concat (map Object_entries [marker])) @ [''2021'', ''2020'']
   \<and> map fst (overlays (hd (controls (projr (session
      [\<lparr>name = ''__proto__'', attr = ''offname'', src = ''json/EdmontonParks.geojson'',
         style = [(''color'', ''green'')]\<rparr>]
      [marker] basemapTiles [Load (Some (Collection []))])))))
     = [''Enemies'']
   \<and> map fst (overlays (hd (controls (projr (session
      [\<lparr>name = ''__proto__'', attr = ''offname'', src = ''json/EdmontonParks.geojson'',
         style = [(''color'', ''green'')]\<rparr>]
      [marker] basemapTiles [Load (Some (Collection []))])))))
     \<noteq> map fst (concat (map Object_entries [marker])) @ [''__proto__'']"
  unfolding collision_example years_example proto_example
  by (simp add: marker_def)

text \<open>
  C3. In every state of a session the requests issued so far are those for the first
  descriptors of the list, in order, one per descriptor; every descriptor before the one
  requested last has been replaced by its realized entry, so the retrieval for descriptor
  \<open>i + 1\<close> has begun only after the response for descriptor \<open>i\<close> was parsed into a
  layer. The requests issued are at most one more than the replies received, no request was
  cut off by a new one, and a request in flight is the one issued last: one retrieval is in
  flight at a time.
\<close>

theorem retrievals_sequential:
  "\<exists>s. session descs pre tls rs = Inr s
     \<and> length (sent s) \<le> Suc (length rs)
     \<and> sent s = map src (take (length (sent s)) descs)
     \<and> list_all (\<lambda>j. entry_for (descs ! j) (objects s ! j)) [0..<length (sent s) - 1]
     \<and> aborted s = []
     \<and> (case xhttp s of None \<Rightarrow> True
         | Some (u, i) \<Rightarrow> Suc i = length (sent s) \<and> u = src (descs ! i))"
proof -
  obtain s k where s: "session descs pre tls rs = Inr s" and sh: "shape descs pre tls k s"
    and k: "k \<le> length rs"
    using reachable_shape by blast
  from sh have realized: "\<forall>j<k. entry_for (descs ! j) (objects s ! j)" and a: "aborted s = []"
    and kd: "k \<le> length descs"
    by (simp_all add: shape_def)
  show ?thesis
  proof (cases "k = length descs")
    case True
    with sh have "xhttp s = None" and "sent s = map src descs"
      by (simp_all add: shape_def)
    with s k a realized True show ?thesis
      by (auto simp: list_all_iff)
  next
    case False
    with sh kd have "sent s = map src (take (Suc k) descs)" and "Suc k \<le> length descs"
      and "xhttp s = None \<or> xhttp s = Some (src (descs ! k), k)"
      by (simp_all add: shape_def)
    with s k a realized show ?thesis
      by (auto simp: list_all_iff min_absorb2)
  qed
qed

theorem retrievals_sequential_witness:
  "sent (projr (session geoJSON [marker] basemapTiles [])) = [''json/EdmontonParks.geojson'']
   \<and> xhttp (projr (session geoJSON [marker] basemapTiles []))
      = Some (''json/EdmontonParks.geojson'', 0)
   \<and> sent (projr (session geoJSON [marker] basemapTiles
        [Load (Some parks_response), Load (Some roads_response)]))
      = [''json/EdmontonParks.geojson'', ''json/EdmontonRoads.geojson'']
   \<and> entry_for (geoJSON ! 0) (objects (projr (session geoJSON [marker] basemapTiles
        [Load (Some parks_response), Load (Some roads_response)])) ! 0)"
  using retrievals_sequential [of geoJSON "[marker]" basemapTiles "[]"]
    retrievals_sequential [of geoJSON "[marker]" basemapTiles
      "[Load (Some parks_response), Load (Some roads_response)]"]
  unfolding example_complete example_started
  by (simp add: geoJSON_def)

text \<open>
  C4, as the code has it. In every state of a session the array has the length of the
  descriptor list, and the element at each index is the descriptor given at that index or
  its realized entry. A turn of the event loop leaves the array as it is, or, when the
  response for the descriptor at index \<open>i\<close> is parsed into a layer, replaces exactly the
  element at \<open>i\<close>, a descriptor until then, by the object \<^verbatim>\<open>leafletGeom\<close>: the one-key object
  that maps the descriptor's name to that layer, or, for the name \<^verbatim>\<open>__proto__\<close>, an object
  without any own property.
\<close>

theorem array_fixed:
  "\<exists>s s'. session descs pre tls rs = Inr s \<and> session descs pre tls (rs @ [r]) = Inr s'
     \<and> length (objects s) = length descs
     \<and> list_all2 (\<lambda>d ob. ob = Descriptor d \<or> entry_for d ob) descs (objects s)
     \<and> (case xhttp s of
           None \<Rightarrow> objects s' = objects s
         | Some (u, i) \<Rightarrow>
             i < length descs \<and> objects s ! i = Descriptor (descs ! i)
             \<and> (case retrieval (descs ! i) r of
                   Inl es \<Rightarrow> objects s' = objects s
                 | Inr l \<Rightarrow>
                     parsed_for (descs ! i) l
                     \<and> objects s' = (objects s)
                         [i := Plain (if name (descs ! i) = proto then []
                                      else [(name (descs ! i), VLayer l)])]))"
proof -
  obtain s k where s: "session descs pre tls rs = Inr s" and sh: "shape descs pre tls k s"
    using reachable_shape by blast
  from sh have len: "length (objects s) = length descs"
    by (simp add: shape_def)
  from sh have "\<forall>j<length descs. objects s ! j = Descriptor (descs ! j)
      \<or> entry_for (descs ! j) (objects s ! j)"
    by (auto simp: shape_def) (metis not_le_imp_less)
  with len have slots: "list_all2 (\<lambda>d ob. ob = Descriptor d \<or> entry_for d ob) descs (objects s)"
    by (simp add: list_all2_conv_all_nth)
  note snoc = session_snoc [OF s, of r]
  from sh show ?thesis
  proof (cases rule: deliver_cases [where r = r])
    case idle
    with s snoc len slots show ?thesis
      by simp
  next
    case (failed es)
    moreover from sh failed(1) have "objects s ! k = Descriptor (descs ! k)"
      by (simp add: shape_def)
    ultimately show ?thesis
      using s snoc len slots by simp
  next
    case (stored l)
    moreover from sh stored(1) have "objects s ! k = Descriptor (descs ! k)"
      by (simp add: shape_def)
    moreover from stored(3) have "parsed_for (descs ! k) l"
      by (rule retrieval_parsed_for)
    ultimately show ?thesis
      using s snoc len slots by (simp add: obj_set_empty)
  qed
qed

theorem array_fixed_witness:
  "xhttp (projr (session geoJSON [marker] basemapTiles []))
     = Some (''json/EdmontonParks.geojson'', 0)
   \<and> retrieval (geoJSON ! 0) (Load (Some parks_response))
     = Inr (GeoJSONLayer [(''color'', ''green'')]
               [(\<lparr>properties = Some [(''offname'', JStr ''Hawrelak Park'')], geometry = Drawable\<rparr>,
                 Own (JStr ''Hawrelak Park'')),
                (\<lparr>properties = Some [(''offname'', JNull)], geometry = Drawable\<rparr>,
                 Own (JStr ''Unnamed'')),
                (\<lparr>properties = Some [(''id'', JNum 7)], geometry = Drawable\<rparr>,
                 Own (JStr ''Unnamed''))])
   \<and> objects (projr (session geoJSON [marker] basemapTiles ([] @ [Load (Some parks_response)])))
     = (map Descriptor geoJSON)
         [0 := Plain [(''Edmonton Parks'', VLayer (GeoJSONLayer [(''color'', ''green'')]
               [(\<lparr>properties = Some [(''offname'', JStr ''Hawrelak Park'')], geometry = Drawable\<rparr>,
                 Own (JStr ''Hawrelak Park'')),
                (\<lparr>properties = Some [(''offname'', JNull)], geometry = Drawable\<rparr>,
                 Own (JStr ''Unnamed'')),
                (\<lparr>properties = Some [(''id'', JNum 7)], geometry = Drawable\<rparr>,
                 Own (JStr ''Unnamed''))]))]]"
  using array_fixed [of geoJSON "[marker]" basemapTiles "[]" "Load (Some parks_response)"]
  unfolding example_started example_first_load
  by (simp add: geoJSON_def retrieval_def JSON_parse_def setGeoJson_def onEachFeature_def
      get_property_def object_prototype_def parks_response_def)

text \<open>
  C4, as it is stated, fails. For a descriptor named \<^verbatim>\<open>__proto__\<close> the object stored at its
  index is not a one-key object: it has no own property.
\<close>

theorem array_fixed_counterexample:
  "objects (projr (session
      [\<lparr>name = ''__proto__'', attr = ''offname'', src = ''json/EdmontonParks.geojson'',
         style = [(''color'', ''green'')]\<rparr>]
      [marker] basemapTiles [Load (Some (Collection []))]))
     = [Plain []]
   \<and> objects (projr (session
      [\<lparr>name = ''__proto__'', attr = ''offname'', src = ''json/EdmontonParks.geojson'',
         style = [(''color'', ''green'')]\<rparr>]
      [marker] basemapTiles [Load (Some (Collection []))]))
     \<noteq> [Plain [(''__proto__'', VLayer (GeoJSONLayer [(''color'', ''green'')] []))]]"
  unfolding proto_example by simp

text \<open>
  C5. When the retrieval for descriptor \<open>i\<close> is in flight and it fails (no load event, a
  response text that is not JSON, or an exception while the layer is built), then whatever
  the network sends afterwards, the state stays as it was at the failure, but for the idle
  request object and the exception that left the handler uncaught: the requests issued are
  those for the descriptors up to \<open>i\<close>, no control is attached, and the array is unchanged.
\<close>

theorem failure_halts:
  assumes "session descs pre tls rs = Inr s" and "xhttp s = Some (u, i)"
    and "retrieval (descs ! i) r = Inl es"
  shows "session descs pre tls (rs @ r # rs')
           = Inr (s\<lparr>xhttp := None, uncaught := uncaught s @ es\<rparr>)
     \<and> controls s = [] \<and> i < length descs \<and> sent s = map src (take (Suc i) descs)"
proof -
  obtain k where sh: "shape descs pre tls k s"
    using reachable_shape [of descs pre tls rs] assms(1) by auto
  with assms(2) have i: "i = k" and k: "k < length descs"
    by (auto simp: shape_def split: if_splits)
  from sh k have len: "length (objects s) = length descs"
    and d: "objects s ! k = Descriptor (descs ! k)"
    and c: "controls s = []" and sn: "sent s = map src (take (Suc k) descs)"
    by (auto simp: shape_def)
  from assms(2,3) k d have "deliver pre tls r s = s\<lparr>xhttp := None, uncaught := uncaught s @ es\<rparr>"
    unfolding i by (intro deliver_fail) (simp_all add: len)
  moreover have "session descs pre tls (rs @ r # rs') = Inr (run pre tls (r # rs') s)"
    using assms(1) by (rule session_append)
  moreover have "run pre tls (r # rs') s = run pre tls rs' (deliver pre tls r s)"
    by (simp add: run_def)
  ultimately have "session descs pre tls (rs @ r # rs')
      = Inr (s\<lparr>xhttp := None, uncaught := uncaught s @ es\<rparr>)"
    by (simp add: run_idle)
  with c k sn show ?thesis
    by (simp add: i)
qed

theorem failure_halts_witness:
  "session geoJSON [marker] basemapTiles [] =
     Inr \<lparr>objects = map Descriptor geoJSON, xhttp = Some (''json/EdmontonParks.geojson'', 0),
          controls = [], sent = [''json/EdmontonParks.geojson''], aborted = [], uncaught = []\<rparr>
   \<and> retrieval (geoJSON ! 0) (Load None) = Inl [SyntaxError]
   \<and> session geoJSON [marker] basemapTiles ([] @ Load None # [Load (Some roads_response)]) =
     Inr \<lparr>objects = map Descriptor geoJSON, xhttp = None,
          controls = [], sent = [''json/EdmontonParks.geojson''], aborted = [],
          uncaught = [SyntaxError]\<rparr>"
proof -
  have r: "retrieval (geoJSON ! 0) (Load None) = Inl [SyntaxError]"
    by (simp add: retrieval_def JSON_parse_def)
  from failure_halts [OF example_started _ r, of "''json/EdmontonParks.geojson''"
      "[Load (Some roads_response)]"]
  show ?thesis
    using r by (simp add: example_started)
qed

text \<open>
  C9, as the code has it. With an empty descriptor list and one pre-parsed entry of a name
  other than \<^verbatim>\<open>__proto__\<close>, \<open>setAllControls\<close> itself builds the mapping and hands it to the
  control, before any event: no request is issued, the mapping holds exactly that entry, and
  no later reply changes the state.
\<close>

theorem empty_list_completes:
  assumes "k \<noteq> proto"
  shows "setAllControls [] [Plain [(k, v)]] tls =
     Inr (\<lparr>objects = [], xhttp = None,
            controls = [\<lparr>basemaps = tls, overlays = [(k, v)]\<rparr>],
            sent = [], aborted = [], uncaught = []\<rparr>,
          Some [Plain [(k, v)]])
   \<and> session [] [Plain [(k, v)]] tls rs =
     Inr \<lparr>objects = [], xhttp = None,
          controls = [\<lparr>basemaps = tls, overlays = [(k, v)]\<rparr>],
          sent = [], aborted = [], uncaught = []\<rparr>"
proof -
  have start: "setAllControls [] [Plain [(k, v)]] tls =
     Inr (\<lparr>objects = [], xhttp = None,
            controls = [\<lparr>basemaps = tls, overlays = [(k, v)]\<rparr>],
            sent = [], aborted = [], uncaught = []\<rparr>,
          Some [Plain [(k, v)]])"
    using assms
    by (simp add: setAllControls_def recursivexhttp_def setFeatureLayers_def obj_set_empty)
  then show ?thesis
    by (simp add: session_def run_idle)
qed

theorem empty_list_completes_witness:
  "''Enemies'' \<noteq> proto
   \<and> session [] [marker] basemapTiles [Load (Some parks_response)] =
     Inr \<lparr>objects = [], xhttp = None,
          controls = [\<lparr>basemaps = basemapTiles,
                       overlays = [(''Enemies'', VLayer (setMarkers [pointLongLat]))]\<rparr>],
          sent = [], aborted = [], uncaught = []\<rparr>"
  using empty_list_completes [of "''Enemies''" "VLayer (setMarkers [pointLongLat])" basemapTiles
      "[Load (Some parks_response)]"]
  by (simp add: marker_def)

text \<open>
  C9, as it is stated, fails. With the one pre-parsed entry named \<^verbatim>\<open>__proto__\<close>, the mapping
  that is built has no entry.
\<close>

theorem empty_list_completes_counterexample:
  "map overlays (controls (projr (session []
      [Plain [(''__proto__'', VLayer (setMarkers [pointLongLat]))]] basemapTiles [])))
     = [[]]
   \<and> map overlays (controls (projr (session []
      [Plain [(''__proto__'', VLayer (setMarkers [pointLongLat]))]] basemapTiles [])))
     \<noteq> [[(''__proto__'', VLayer (setMarkers [pointLongLat]))]]"
  by (simp add: session_def run_def setAllControls_def recursivexhttp_def setFeatureLayers_def
      obj_set_def)

text \<open>
  C10. \<open>setAllControls\<close> returns the list \<^verbatim>\<open>features\<close> (here the pre-parsed entries alone)
  when the descriptor list is empty, and \<^verbatim>\<open>undefined\<close> for every other descriptor list.
\<close>

theorem return_value:
  "map_sum id snd (setAllControls (map Descriptor descs) pre tls)
     = Inr (if descs = [] then Some pre else None)"
  using setAllControls_start [of descs pre tls] by auto

theorem return_value_witness:
  "map_sum id snd (setAllControls (map Descriptor geoJSON) [marker] basemapTiles) = Inr None
   \<and> map_sum id snd (setAllControls (map Descriptor []) [marker] basemapTiles) = Inr (Some [marker])"
  using return_value [of geoJSON "[marker]" basemapTiles] return_value [of "[]" "[marker]" basemapTiles]
  by (simp add: geoJSON_def)

end
